theory Spec2Isabelle
  imports Complex_Main "HOL-Library.Stream"
begin

section \<open>The notebook: values, library interface and global state\<close>

text \<open>
  The repository is one Jupyter notebook,
  \<^verbatim>\<open>2.5.3+Dimensionality+Reduction+in+Linear+Regression.ipynb\<close>. Its code cells draw
  synthetic data, fit an ordinary least-squares model and a partial least-squares model
  with scikit-learn, and sweep the number of PLS components from 1 to 10, printing the
  R-squared score of every fit. The cells are embedded as functions on the record of the
  notebook's global variables. Floating-point numbers are idealised as \<^typ>\<open>real\<close>;
  a numpy vector is a list, a numpy matrix the list of its rows.
\<close>

type_synonym vec = "real list"
type_synonym mat = "real list list"

datatype py_error = ValueError | IndexError | NotFittedError

definition and_then :: "py_error + 'a \<Rightarrow> ('a \<Rightarrow> py_error + 'b) \<Rightarrow> py_error + 'b" where
  "and_then r f = (case r of Inl e \<Rightarrow> Inl e | Inr v \<Rightarrow> f v)"

subsection \<open>numpy\<close>

text \<open>
  \<^verbatim>\<open>np.random.normal(size=k)\<close> reads numpy's global generator, a hidden piece of
  state that fixes every sample still to come: the generator is the stream of those
  samples, a call takes the first \<open>k\<close> of them and leaves the rest. A negative size
  raises \<^verbatim>\<open>ValueError\<close>.
\<close>

type_synonym generator = "real stream"

definition normal :: "int \<Rightarrow> generator \<Rightarrow> py_error + (vec \<times> generator)" where
  "normal k g =
     (if k < 0 then Inl ValueError
      else Inr (stake (nat k) g, sdrop (nat k) g))"

fun chunks :: "nat \<Rightarrow> nat \<Rightarrow> 'a list \<Rightarrow> 'a list list" where
  "chunks 0 c xs = []"
| "chunks (Suc r) c xs = take c xs # chunks r c (drop c xs)"

text \<open>
  \<^verbatim>\<open>a.reshape((r, c))\<close> lays a vector out row by row; it raises \<^verbatim>\<open>ValueError\<close> when
  the vector does not hold \<open>r * c\<close> entries. (The notebook passes no negative dimension;
  one is taken as the error.)
\<close>

definition reshape :: "vec \<Rightarrow> int \<times> int \<Rightarrow> py_error + mat" where
  "reshape v shape =
     (case shape of (r, c) \<Rightarrow>
        if r < 0 \<or> c < 0 \<or> int (length v) \<noteq> r * c then Inl ValueError
        else Inr (chunks (nat r) (nat c) v))"

text \<open>\<^verbatim>\<open>M[:, j]\<close>: column \<open>j\<close> of a matrix, \<^verbatim>\<open>IndexError\<close> when there is none.\<close>

definition column :: "mat \<Rightarrow> nat \<Rightarrow> py_error + vec" where
  "column M j =
     (if list_all (\<lambda>row. j < length row) M then Inr (map (\<lambda>row. row ! j) M)
      else Inl IndexError)"

text \<open>
  Elementwise sum of two vectors of one shape; numpy raises \<^verbatim>\<open>ValueError\<close> when the
  shapes cannot be broadcast together. (Every vector the notebook adds has \<open>n\<close> entries,
  so broadcasting a one-entry vector never arises and is not modelled.)
\<close>

definition vadd :: "vec \<Rightarrow> vec \<Rightarrow> py_error + vec" where
  "vadd a b =
     (if length a = length b then Inr (map (\<lambda>(u, v). u + v) (zip a b))
      else Inl ValueError)"

definition py_range :: "int \<Rightarrow> int \<Rightarrow> int list" where
  "py_range a b = [a..b - 1]"

subsection \<open>scikit-learn\<close>

text \<open>
  The notebook calls \<^verbatim>\<open>linear_model.LinearRegression\<close> and \<^verbatim>\<open>PLSRegression\<close>; neither
  is part of the repository. Their \<^verbatim>\<open>fit\<close>, \<^verbatim>\<open>predict\<close> and \<^verbatim>\<open>score\<close> are parameters
  of the model, each free to raise: \<open>'lr\<close> and \<open>'pls\<close> are whatever a fit stores in the
  estimator.
\<close>

record ('lr, 'pls) sklearn =
  lr_fit :: "mat \<Rightarrow> vec \<Rightarrow> py_error + 'lr"
  lr_predict :: "'lr \<Rightarrow> mat \<Rightarrow> py_error + vec"
  lr_score :: "'lr \<Rightarrow> mat \<Rightarrow> vec \<Rightarrow> py_error + real"
  pls_fit :: "int \<Rightarrow> mat \<Rightarrow> vec \<Rightarrow> py_error + 'pls"
  pls_predict :: "'pls \<Rightarrow> mat \<Rightarrow> py_error + vec"
  pls_score :: "'pls \<Rightarrow> mat \<Rightarrow> vec \<Rightarrow> py_error + real"

text \<open>
  An estimator object: \<^verbatim>\<open>PLSRegression(n_components=k)\<close> builds one that is not
  fitted yet, \<^verbatim>\<open>fit\<close> stores the fitted parameters in it.
\<close>

record 'pls pls_estimator =
  n_components :: int
  fitted :: "'pls option"

definition PLSRegression :: "int \<Rightarrow> 'pls pls_estimator" where
  "PLSRegression k = \<lparr>n_components = k, fitted = None\<rparr>"

definition LinearRegression :: "'lr option" where
  "LinearRegression = None"

definition fit_pls ::
  "('lr, 'pls) sklearn \<Rightarrow> 'pls pls_estimator \<Rightarrow> mat \<Rightarrow> vec \<Rightarrow> py_error + 'pls pls_estimator" where
  "fit_pls lib est M v =
     and_then (pls_fit lib (n_components est) M v) (\<lambda>m. Inr (est\<lparr>fitted := Some m\<rparr>))"

definition predict_pls ::
  "('lr, 'pls) sklearn \<Rightarrow> 'pls pls_estimator \<Rightarrow> mat \<Rightarrow> py_error + vec" where
  "predict_pls lib est M =
     (case fitted est of None \<Rightarrow> Inl NotFittedError | Some m \<Rightarrow> pls_predict lib m M)"

definition score_pls ::
  "('lr, 'pls) sklearn \<Rightarrow> 'pls pls_estimator \<Rightarrow> mat \<Rightarrow> vec \<Rightarrow> py_error + real" where
  "score_pls lib est M v =
     (case fitted est of None \<Rightarrow> Inl NotFittedError | Some m \<Rightarrow> pls_score lib m M v)"

definition predict_lr :: "('lr, 'pls) sklearn \<Rightarrow> 'lr option \<Rightarrow> mat \<Rightarrow> py_error + vec" where
  "predict_lr lib est M =
     (case est of None \<Rightarrow> Inl NotFittedError | Some m \<Rightarrow> lr_predict lib m M)"

definition score_lr ::
  "('lr, 'pls) sklearn \<Rightarrow> 'lr option \<Rightarrow> mat \<Rightarrow> vec \<Rightarrow> py_error + real" where
  "score_lr lib est M v =
     (case est of None \<Rightarrow> Inl NotFittedError | Some m \<Rightarrow> lr_score lib m M v)"

subsection \<open>The global variables\<close>

text \<open>
  One field per global the code cells bind (\<open>var_n\<close> is the notebook's \<^verbatim>\<open>n\<close>, and so
  on), the generator behind \<^verbatim>\<open>np.random\<close>, and the lines printed so far. The figure
  objects of the plotting calls are left out.
\<close>

datatype line =
  R_squared_regression real
  | R_squared_PLSR real
  | Number_of_components int

record ('lr, 'pls) globals =
  rng :: generator
  var_n :: int
  var_p :: int
  var_X :: mat
  var_y :: vec
  var_regr :: "'lr option"
  var_Y_pred :: vec
  var_pls1 :: "'pls pls_estimator"
  var_Y_PLS_pred :: vec
  stdout :: "line list"

section \<open>The code cells\<close>

text \<open>
  Cell 2 (execution count 2):
  \<^verbatim>\<open>
  n = 1000
  p = 10
  X = np.random.normal(size=n * p).reshape((n, p))
  y = X[:, 0] + 2 * X[:, 1] + np.random.normal(size=n * 1) + 5
  \<close>
  followed by the correlation heatmap, which binds nothing the later cells read.
\<close>

definition cell2 :: "('lr, 'pls) globals \<Rightarrow> py_error + ('lr, 'pls) globals" where
  "cell2 s0 =
     (let s1 = s0\<lparr>var_n := 1000\<rparr>;
          s2 = s1\<lparr>var_p := 10\<rparr>
      in and_then (normal (var_n s2 * var_p s2) (rng s2)) (\<lambda>(v, g).
         and_then (reshape v (var_n s2, var_p s2)) (\<lambda>M.
           let s3 = s2\<lparr>rng := g, var_X := M\<rparr>
           in and_then (column (var_X s3) 0) (\<lambda>c0.
              and_then (column (var_X s3) 1) (\<lambda>c1.
              and_then (vadd c0 (map (\<lambda>t. 2 * t) c1)) (\<lambda>a.
              and_then (normal (var_n s3 * 1) (rng s3)) (\<lambda>(e, g').
              and_then (vadd a e) (\<lambda>b.
                Inr (s3\<lparr>rng := g', var_y := map (\<lambda>t. t + 5) b\<rparr>)))))))))"

text \<open>
  Cell 3 (execution count 3):
  \<^verbatim>\<open>
  regr = linear_model.LinearRegression()
  regr.fit(X, y)
  Y_pred = regr.predict(X)
  print('R-squared regression:', regr.score(X, y))
  pls1 = PLSRegression(n_components=3)
  pls1.fit(X, y)
  Y_PLS_pred = pls1.predict(X)
  print('R-squared PLSR:', pls1.score(X, y))
  \<close>
\<close>

definition cell3 ::
  "('lr, 'pls) sklearn \<Rightarrow> ('lr, 'pls) globals \<Rightarrow> py_error + ('lr, 'pls) globals" where
  "cell3 lib s0 =
     (let s1 = s0\<lparr>var_regr := LinearRegression\<rparr>
      in and_then (lr_fit lib (var_X s1) (var_y s1)) (\<lambda>m.
           let s2 = s1\<lparr>var_regr := Some m\<rparr>
           in and_then (predict_lr lib (var_regr s2) (var_X s2)) (\<lambda>yp.
                let s3 = s2\<lparr>var_Y_pred := yp\<rparr>
                in and_then (score_lr lib (var_regr s3) (var_X s3) (var_y s3)) (\<lambda>r.
                     let s4 = s3\<lparr>stdout := stdout s3 @ [R_squared_regression r]\<rparr>;
                         s5 = s4\<lparr>var_pls1 := PLSRegression 3\<rparr>
                     in and_then (fit_pls lib (var_pls1 s5) (var_X s5) (var_y s5)) (\<lambda>est.
                          let s6 = s5\<lparr>var_pls1 := est\<rparr>
                          in and_then (predict_pls lib (var_pls1 s6) (var_X s6)) (\<lambda>yq.
                               let s7 = s6\<lparr>var_Y_PLS_pred := yq\<rparr>
                               in and_then (score_pls lib (var_pls1 s7) (var_X s7) (var_y s7)) (\<lambda>q.
                                    Inr (s7\<lparr>stdout := stdout s7 @ [R_squared_PLSR q]\<rparr>))))))))"

text \<open>
  Cell 4 (execution count 6), the component sweep:
  \<^verbatim>\<open>
  for n in range(1, 11):
      pls1 = PLSRegression(n_components=n)
      pls1.fit(X, y)
      Y_PLS_pred = pls1.predict(X)
      print('Number of components:', n)
      print('R-squared PLSR:', pls1.score(X, y))
  \<close>
  The loop variable is the global \<^verbatim>\<open>n\<close>: every iteration binds it before the body runs.
\<close>

definition sweep_body ::
  "('lr, 'pls) sklearn \<Rightarrow> int \<Rightarrow> ('lr, 'pls) globals \<Rightarrow> py_error + ('lr, 'pls) globals" where
  "sweep_body lib i s0 =
     (let s1 = s0\<lparr>var_n := i\<rparr>;
          s2 = s1\<lparr>var_pls1 := PLSRegression (var_n s1)\<rparr>
      in and_then (fit_pls lib (var_pls1 s2) (var_X s2) (var_y s2)) (\<lambda>est.
           let s3 = s2\<lparr>var_pls1 := est\<rparr>
           in and_then (predict_pls lib (var_pls1 s3) (var_X s3)) (\<lambda>yq.
                let s4 = s3\<lparr>var_Y_PLS_pred := yq\<rparr>;
                    s5 = s4\<lparr>stdout := stdout s4 @ [Number_of_components (var_n s4)]\<rparr>
                in and_then (score_pls lib (var_pls1 s5) (var_X s5) (var_y s5)) (\<lambda>q.
                     Inr (s5\<lparr>stdout := stdout s5 @ [R_squared_PLSR q]\<rparr>)))))"

fun for_loop ::
  "(int \<Rightarrow> 's \<Rightarrow> py_error + 's) \<Rightarrow> int list \<Rightarrow> 's \<Rightarrow> py_error + 's" where
  "for_loop body [] s = Inr s"
| "for_loop body (i # is) s = and_then (body i s) (for_loop body is)"

definition cell4 ::
  "('lr, 'pls) sklearn \<Rightarrow> ('lr, 'pls) globals \<Rightarrow> py_error + ('lr, 'pls) globals" where
  "cell4 lib s = for_loop (sweep_body lib) (py_range 1 11) s"

text \<open>The notebook, its cells run in the recorded order (cell 1 only imports).\<close>

definition notebook ::
  "('lr, 'pls) sklearn \<Rightarrow> ('lr, 'pls) globals \<Rightarrow> py_error + ('lr, 'pls) globals" where
  "notebook lib s = and_then (and_then (cell2 s) (cell3 lib)) (cell4 lib)"

text \<open>
  A kernel that has just started: no cell has run, nothing is printed, and the generator
  is in whatever state \<open>g\<close> numpy's start-up left it in. The notebook never calls
  \<^verbatim>\<open>np.random.seed\<close>, so \<open>g\<close> is an input of a run. (The other fields stand for
  names that are not bound yet; every cell assigns them before the notebook reads them.)
\<close>

definition fresh_kernel :: "generator \<Rightarrow> ('lr, 'pls) globals" where
  "fresh_kernel g =
     \<lparr>rng = g, var_n = 0, var_p = 0, var_X = [], var_y = [], var_regr = None,
      var_Y_pred = [], var_pls1 = PLSRegression 0, var_Y_PLS_pred = [], stdout = []\<rparr>"

subsection \<open>Shapes and component counts\<close>

text \<open>\<^verbatim>\<open>M.shape\<close> of a matrix given by its rows.\<close>

definition shape :: "mat \<Rightarrow> nat \<times> nat" where
  "shape M = (length M, case M of [] \<Rightarrow> 0 | row # _ \<Rightarrow> length row)"

text \<open>
  The component count \<open>k\<close> is in range for an \<open>n\<close> by \<open>p\<close> matrix:
  \<open>1 \<le> k \<le> min n p\<close>.
\<close>

definition valid_n_components :: "int \<Rightarrow> mat \<Rightarrow> bool" where
  "valid_n_components k M =
     (case shape M of (n, p) \<Rightarrow> 1 \<le> k \<and> k \<le> min (int n) (int p))"

subsection \<open>A library to run the cells with\<close>

text \<open>
  A stand-in for scikit-learn on which every call succeeds: a fit keeps the first target
  value, a prediction repeats it for every row, and the score reports it.
\<close>

definition first_target :: "vec \<Rightarrow> real" where
  "first_target v = (case v of [] \<Rightarrow> 0 | a # _ \<Rightarrow> a)"

definition stub_sklearn :: "(real, real) sklearn" where
  "stub_sklearn =
     \<lparr>lr_fit = (\<lambda>M v. Inr (first_target v)),
      lr_predict = (\<lambda>m M. Inr (map (\<lambda>row. m) M)),
      lr_score = (\<lambda>m M v. Inr m),
      pls_fit = (\<lambda>k M v. Inr (first_target v)),
      pls_predict = (\<lambda>m M. Inr (map (\<lambda>row. m) M)),
      pls_score = (\<lambda>m M v. Inr m)\<rparr>"

section \<open>The PLS fitter the notebook calls\<close>

text \<open>
  \<^verbatim>\<open>PLSRegression\<close> is scikit-learn's; its code is not in the repository. The
  repository's specification describes the fitter behind it: a fit that centers the data,
  extracts \<open>k\<close> components by iterative deflation and collapses them into one coefficient
  vector and an intercept, a prediction and an R-squared score. The definitions of this
  section follow that description, in exact real arithmetic; they are used only where a
  property is about the fitter itself.
\<close>

text \<open>
  Modelled from the spec: the error taxonomy of the fitter, whose code is missing.
  \<open>InvalidArgument\<close>: malformed inputs to fit; \<open>DimensionMismatch\<close>: a feature matrix
  whose column count disagrees with the fitted model; \<open>DegenerateInput\<close>: a zero-variance
  target in score.
\<close>

datatype pls_error = InvalidArgument | DimensionMismatch | DegenerateInput

subsection \<open>Vectors and matrices\<close>

text \<open>
  Modelled from the spec: the inner product of two vectors, which the missing fitter
  uses for every projection and regression of its algorithm.
\<close>

definition dot :: "vec \<Rightarrow> vec \<Rightarrow> real" where
  "dot a b = sum_list (map (\<lambda>(u, v). u * v) (zip a b))"

text \<open>
  Modelled from the spec: the number \<open>p\<close> of features of the feature matrix (\<open>n\<close>
  observations by \<open>p\<close> features) the missing fitter is given.
\<close>

definition ncols :: "mat \<Rightarrow> nat" where
  "ncols M = (case M of [] \<Rightarrow> 0 | row # _ \<Rightarrow> length row)"

text \<open>
  Modelled from the spec: the missing fitter's feature matrix is \<open>n\<close> by \<open>p\<close>, every
  observation has the same \<open>p\<close> features.
\<close>

definition is_matrix :: "mat \<Rightarrow> bool" where
  "is_matrix M = list_all (\<lambda>row. length row = ncols M) M"

text \<open>Modelled from the spec: the columns (features) of the missing fitter's matrix.\<close>

definition columns :: "mat \<Rightarrow> mat" where
  "columns M = map (\<lambda>j. map (\<lambda>row. row ! j) M) [0..<ncols M]"

text \<open>
  Modelled from the spec: the mean the missing fitter subtracts when it centers. (The
  fitter takes the mean of \<open>n \<ge> 1\<close> values only; the empty case is there to keep the
  division defined.)
\<close>

definition mean :: "vec \<Rightarrow> real" where
  "mean v = (if v = [] then 0 else sum_list v / real (length v))"

text \<open>Modelled from the spec: the per-column means of the missing fitter's matrix.\<close>

definition col_means :: "mat \<Rightarrow> vec" where
  "col_means M = map mean (columns M)"

text \<open>Modelled from the spec: the difference of two vectors, for the missing fitter.\<close>

definition vsub :: "vec \<Rightarrow> vec \<Rightarrow> vec" where
  "vsub a b = map (\<lambda>(u, v). u - v) (zip a b)"

text \<open>Modelled from the spec: a vector times a number, for the missing fitter.\<close>

definition scale :: "real \<Rightarrow> vec \<Rightarrow> vec" where
  "scale c v = map (\<lambda>u. c * u) v"

text \<open>
  Modelled from the spec: "centered (mean-subtracted per column) before fitting", the
  centered copy of the feature matrix that the missing fitter works on.
\<close>

definition center_rows :: "mat \<Rightarrow> vec \<Rightarrow> mat" where
  "center_rows M mu = map (\<lambda>row. vsub row mu) M"

text \<open>Modelled from the spec: the target vector of the missing fitter, "centered before fitting".\<close>

definition center_vec :: "vec \<Rightarrow> vec" where
  "center_vec v = map (\<lambda>u. u - mean v) v"

text \<open>
  Modelled from the spec: the product of the transposed residual feature matrix with a
  vector of \<open>n\<close> entries (the covariance between every feature and that vector), for
  the missing fitter.
\<close>

definition tmult :: "mat \<Rightarrow> vec \<Rightarrow> vec" where
  "tmult M v = map (\<lambda>c. dot c v) (columns M)"

text \<open>
  Modelled from the spec: the normalisation in step 1 of the missing fitter's algorithm.
  A direction of length zero stays zero: "no remaining covariance to extract ...
  subsequent components contribute zero weight", a fallback and not an error.
\<close>

definition normalized :: "vec \<Rightarrow> vec" where
  "normalized v =
     (if sqrt (dot v v) = 0 then replicate (length v) 0
      else scale (1 / sqrt (dot v v)) v)"

subsection \<open>Components and deflation\<close>

text \<open>
  Modelled from the spec: what the missing fitter's model holds per component, "a
  feature-space weight vector, a target-space weight scalar, a feature loading vector,
  and a score vector".
\<close>

record component =
  weight :: vec
  target_weight :: real
  loading :: vec
  score_vector :: vec

text \<open>
  Modelled from the spec: steps 1 to 4 of the missing fitter's algorithm on the residuals
  \<open>E\<close> (features) and \<open>f\<close> (target). The weight is the normalized covariance direction
  between \<open>E\<close> and \<open>f\<close>; the score is \<open>E\<close> projected onto the weight; the feature
  loading and the target loading are the least-squares regressions of \<open>E\<close> and of \<open>f\<close>
  onto the score. A score of length zero gives zero loadings (the fallback again).
\<close>

definition extract_component :: "mat \<Rightarrow> vec \<Rightarrow> component" where
  "extract_component E f =
     (let w = normalized (tmult E f);
          t = map (\<lambda>row. dot row w) E;
          tt = dot t t;
          p = (if tt = 0 then replicate (ncols E) 0 else scale (1 / tt) (tmult E t));
          q = (if tt = 0 then 0 else dot f t / tt)
      in \<lparr>weight = w, target_weight = q, loading = p, score_vector = t\<rparr>)"

text \<open>
  Modelled from the spec: step 5 of the missing fitter's algorithm on the features,
  "subtract the rank-one reconstruction (score times feature loading) from the residual
  feature matrix".
\<close>

definition deflate_X :: "mat \<Rightarrow> component \<Rightarrow> mat" where
  "deflate_X E c =
     map (\<lambda>(row, ti). vsub row (scale ti (loading c))) (zip E (score_vector c))"

text \<open>
  Modelled from the spec: step 5 of the missing fitter's algorithm on the target,
  "subtract (score times target loading) from the residual target".
\<close>

definition deflate_y :: "vec \<Rightarrow> component \<Rightarrow> vec" where
  "deflate_y f c = vsub f (scale (target_weight c) (score_vector c))"

text \<open>
  Modelled from the spec: the iteration of the missing fitter's algorithm, "performed for
  component index i = 1..k", each step on the residuals the step before left.
\<close>

fun extract_components :: "nat \<Rightarrow> mat \<Rightarrow> vec \<Rightarrow> component list" where
  "extract_components 0 E f = []"
| "extract_components (Suc i) E f =
     (let c = extract_component E f
      in c # extract_components i (deflate_X E c) (deflate_y f c))"

text \<open>
  Modelled from the spec: the residuals the missing fitter's algorithm holds after \<open>i\<close>
  iterations, "the residuals fed into iteration i+1".
\<close>

fun residuals :: "nat \<Rightarrow> mat \<Rightarrow> vec \<Rightarrow> mat \<times> vec" where
  "residuals 0 E f = (E, f)"
| "residuals (Suc i) E f =
     (let c = extract_component E f
      in residuals i (deflate_X E c) (deflate_y f c))"

text \<open>Modelled from the spec: a residual target of the missing fitter that has become zero.\<close>

definition is_zero_vec :: "vec \<Rightarrow> bool" where
  "is_zero_vec v = list_all (\<lambda>u. u = 0) v"

text \<open>
  Modelled from the spec: a residual feature matrix of the missing fitter that has become
  zero.
\<close>

definition is_zero_mat :: "mat \<Rightarrow> bool" where
  "is_zero_mat M = list_all is_zero_vec M"

text \<open>
  Modelled from the spec: the component the missing fitter extracts once nothing is left,
  "zero contribution".
\<close>

definition zero_component :: "nat \<Rightarrow> nat \<Rightarrow> component" where
  "zero_component n p =
     \<lparr>weight = replicate p 0, target_weight = 0, loading = replicate p 0,
      score_vector = replicate n 0\<rparr>"

subsection \<open>The fitted model\<close>

text \<open>
  Modelled from the spec: "sequentially applying all k components" of the missing fitter
  to a centered observation \<open>x\<close>: the score of \<open>x\<close> on a component times the target
  loading, then the next component on \<open>x\<close> deflated by that score.
\<close>

fun apply_components :: "component list \<Rightarrow> vec \<Rightarrow> real" where
  "apply_components [] x = 0"
| "apply_components (c # cs) x =
     (let t = dot x (weight c)
      in t * target_weight c + apply_components cs (vsub x (scale t (loading c))))"

text \<open>Modelled from the spec: unit vector \<open>j\<close> of the missing fitter's feature space.\<close>

definition unit_vec :: "nat \<Rightarrow> nat \<Rightarrow> vec" where
  "unit_vec p j = (replicate p 0)[j := 1]"

text \<open>
  Modelled from the spec: step 6 of the missing fitter's algorithm, "algebraically
  collapse the component chain into one linear map": the coefficient of feature \<open>j\<close> is
  what the chain gives on unit vector \<open>j\<close>.
\<close>

definition collapse :: "nat \<Rightarrow> component list \<Rightarrow> vec" where
  "collapse p cs = map (\<lambda>j. apply_components cs (unit_vec p j)) [0..<p]"

text \<open>
  Modelled from the spec: the missing fitter's Fitted Model, the components "plus an
  overall regression coefficient vector (feature-space) and intercept".
\<close>

record fitted_model =
  components :: "component list"
  coefficients :: vec
  intercept :: real

text \<open>
  Modelled from the spec: \<open>fit(X, y, k)\<close> of the missing fitter. "Fails with an
  InvalidArgument condition if dimensions mismatch or k is out of range"
  (\<open>1 \<le> k \<le> min(n, p)\<close>); otherwise it centers \<open>X\<close> and \<open>y\<close>, extracts \<open>k\<close>
  components, collapses them and un-centers "by adding back the feature means' and
  target's contribution to the intercept".
\<close>

definition fit :: "mat \<Rightarrow> vec \<Rightarrow> int \<Rightarrow> pls_error + fitted_model" where
  "fit X y k =
     (if length X \<noteq> length y \<or> k < 1 \<or> k > min (int (length X)) (int (ncols X))
      then Inl InvalidArgument
      else
        let x_mean = col_means X;
            y_mean = mean y;
            cs = extract_components (nat k) (center_rows X x_mean) (center_vec y);
            b = collapse (ncols X) cs
        in Inr \<lparr>components = cs, coefficients = b, intercept = y_mean - dot x_mean b\<rparr>)"

text \<open>
  Modelled from the spec: \<open>predict(model, X_new)\<close> of the missing fitter, "computed as
  X_new times coefficients + intercept ... Fails with DimensionMismatch if column count
  differs".
\<close>

definition predict :: "fitted_model \<Rightarrow> mat \<Rightarrow> pls_error + vec" where
  "predict m X_new =
     (if list_all (\<lambda>row. length row = length (coefficients m)) X_new
      then Inr (map (\<lambda>row. dot row (coefficients m) + intercept m) X_new)
      else Inl DimensionMismatch)"

text \<open>
  Modelled from the spec: \<open>score(model, X, y)\<close> of the missing fitter, "1 - (sum of
  squared residuals / total sum of squares about the mean of y)", failing when \<open>y\<close> has
  zero total variance.
\<close>

definition score :: "fitted_model \<Rightarrow> mat \<Rightarrow> vec \<Rightarrow> pls_error + real" where
  "score m X y =
     (case predict m X of
        Inl e \<Rightarrow> Inl e
      | Inr y_hat \<Rightarrow>
          let ss_res = sum_list (map (\<lambda>(u, v). (u - v)\<^sup>2) (zip y y_hat));
              ss_tot = sum_list (map (\<lambda>u. (u - mean y)\<^sup>2) y)
          in if ss_tot = 0 then Inl DegenerateInput else Inr (1 - ss_res / ss_tot))"

text \<open>
  Modelled from the spec: for a model the missing fitter has fitted on data the caller
  centered, "adding back the mean afterward": the contribution of the feature means and
  of the target mean of the uncentered data \<open>X\<close>, \<open>y\<close> goes into the intercept.
\<close>

definition add_means_back :: "mat \<Rightarrow> vec \<Rightarrow> fitted_model \<Rightarrow> fitted_model" where
  "add_means_back X y m =
     m\<lparr>intercept := intercept m + (mean y - dot (col_means X) (coefficients m))\<rparr>"

section \<open>Properties of the notebook\<close>

subsection \<open>Results and errors\<close>

lemma and_then_Inr: "and_then r f = Inr t \<longleftrightarrow> (\<exists>v. r = Inr v \<and> f v = Inr t)"
  by (cases r) (simp_all add: and_then_def)

lemma and_then_simps: "and_then (Inr v) f = f v" "and_then (Inl e) f = Inl e"
  by (simp_all add: and_then_def)

subsection \<open>Reshaping\<close>

lemma length_chunks: "length (chunks r c xs) = r"
  by (induction r arbitrary: xs) simp_all

lemma rows_chunks: "length xs = r * c \<Longrightarrow> row \<in> set (chunks r c xs) \<Longrightarrow> length row = c"
proof (induction r arbitrary: xs)
  case 0
  then show ?case by simp
next
  case (Suc r)
  have len: "length (drop c xs) = r * c" using Suc.prems(1) by simp
  from Suc.prems(2) have "row = take c xs \<or> row \<in> set (chunks r c (drop c xs))" by simp
  then show ?case
  proof
    assume "row = take c xs"
    then show ?thesis using Suc.prems(1) by simp
  next
    assume "row \<in> set (chunks r c (drop c xs))"
    then show ?thesis using Suc.IH[OF len] by simp
  qed
qed

lemma concat_chunks: "length xs = r * c \<Longrightarrow> concat (chunks r c xs) = xs"
  by (induction r arbitrary: xs) simp_all

lemma chunks_pos: "0 < r \<Longrightarrow> chunks r c xs = take c xs # chunks (r - 1) c (drop c xs)"
  by (cases r) simp_all

lemma column_chunks:
  "length xs = r * c \<Longrightarrow> j < c \<Longrightarrow>
     column (chunks r c xs) j = Inr (map (\<lambda>row. row ! j) (chunks r c xs))"
  by (auto simp: column_def list_all_iff dest: rows_chunks)

subsection \<open>Cell 2\<close>

text \<open>Cell 2 never raises; what it binds is read off the generator.\<close>

lemma cell2_runs:
  "cell2 s = Inr (s\<lparr>var_n := 1000, var_p := 10,
       var_X := chunks 1000 10 (stake 10000 (rng s)),
       rng := sdrop 11000 (rng s),
       var_y := map (\<lambda>(row, e). row ! 0 + 2 * row ! 1 + e + 5)
                  (zip (chunks 1000 10 (stake 10000 (rng s)))
                       (stake 1000 (sdrop 10000 (rng s))))\<rparr>)"
proof -
  let ?v = "stake 10000 (rng s)" and ?e = "stake 1000 (sdrop 10000 (rng s))"
  let ?M = "chunks 1000 10 ?v"
  have len: "length ?v = 1000 * 10" by simp
  have M: "reshape ?v (1000, 10) = Inr ?M"
    by (simp add: reshape_def)
  have c0: "column ?M 0 = Inr (map (\<lambda>row. row ! 0) ?M)"
    and c1: "column ?M (Suc 0) = Inr (map (\<lambda>row. row ! 1) ?M)"
    using column_chunks[OF len] by simp_all
  have "map (\<lambda>t. t + 5) (map (\<lambda>(u, v). u + v) (zip (map (\<lambda>(u, v). u + v)
          (zip (map (\<lambda>row. row ! 0) ?M) (map (\<lambda>t. 2 * t) (map (\<lambda>row. row ! 1) ?M)))) ?e))
     = map (\<lambda>(row, e). row ! 0 + 2 * row ! 1 + e + 5) (zip ?M ?e)"
    by (intro nth_equalityI) (simp_all add: length_chunks)
  then show ?thesis
    by (simp add: cell2_def Let_def normal_def M c0 c1 and_then_simps vadd_def length_chunks)
qed

lemma cell2_Inr:
  assumes "cell2 s = Inr t"
  shows "var_n t = 1000" and "var_p t = 10"
    and "var_X t = chunks 1000 10 (stake 10000 (rng s))"
    and "var_y t = map (\<lambda>(row, e). row ! 0 + 2 * row ! 1 + e + 5)
           (zip (var_X t) (stake 1000 (sdrop 10000 (rng s))))"
    and "rng t = sdrop 11000 (rng s)"
    and "stdout t = stdout s"
  using assms unfolding cell2_runs by auto

lemma cell2_shape:
  assumes "cell2 s = Inr t"
  shows "length (var_X t) = 1000" and "shape (var_X t) = (1000, 10)"
    and "concat (var_X t) = stake 10000 (rng s)"
proof -
  let ?v = "stake 10000 (rng s)"
  have len: "length ?v = 1000 * 10" by simp
  show "length (var_X t) = 1000"
    by (simp add: cell2_Inr(3)[OF assms] length_chunks)
  show "shape (var_X t) = (1000, 10)"
    by (simp add: cell2_Inr(3)[OF assms] shape_def length_chunks chunks_pos)
  show "concat (var_X t) = ?v"
    using concat_chunks[OF len] by (simp add: cell2_Inr(3)[OF assms])
qed

lemma stake_pos: "0 < k \<Longrightarrow> stake k g = shd g # stake (k - 1) (stl g)"
  by (cases k) simp_all

lemma cell2_first_target:
  assumes "cell2 s = Inr t"
  shows "first_target (var_y t) = rng s !! 0 + 2 * rng s !! 1 + rng s !! 10000 + 5"
proof -
  have a: "take 10 (stake 10000 (rng s)) ! 0 = rng s !! 0"
    and b: "take 10 (stake 10000 (rng s)) ! 1 = rng s !! 1"
    by simp_all
  have c: "shd (sdrop 10000 (rng s)) = rng s !! 10000"
    by (simp add: snth.simps sdrop_simps)
  show ?thesis
    unfolding cell2_Inr(4)[OF assms] cell2_Inr(3)[OF assms]
    by (simp add: first_target_def chunks_pos[of 1000] stake_pos[of 1000] a b c del: snth.simps)
qed

subsection \<open>Cells 3 and 4\<close>

lemma fit_pls_Inr: "fit_pls lib est M v = Inr est' \<Longrightarrow> n_components est' = n_components est"
  by (auto simp: fit_pls_def and_then_Inr)

lemma cell3_frame:
  assumes "cell3 lib s = Inr t"
  shows "rng t = rng s" and "var_n t = var_n s" and "var_p t = var_p s"
    and "var_X t = var_X s" and "var_y t = var_y s"
    and "n_components (var_pls1 t) = 3"
  using assms
  by (auto simp: cell3_def Let_def and_then_Inr PLSRegression_def dest: fit_pls_Inr)

lemma sweep_body_frame:
  assumes "sweep_body lib i s = Inr t"
  shows "rng t = rng s" and "var_n t = i" and "var_p t = var_p s"
    and "var_X t = var_X s" and "var_y t = var_y s"
    and "n_components (var_pls1 t) = i"
  using assms
  by (auto simp: sweep_body_def Let_def and_then_Inr PLSRegression_def dest: fit_pls_Inr)

text \<open>
  The loop leaves the data alone and ends with the loop variable at the last index;
  induction on the indices still to run, for any state the loop is entered in.
\<close>

lemma for_loop_sweep_frame:
  assumes "for_loop (sweep_body lib) ks s = Inr t"
  shows "rng t = rng s \<and> var_p t = var_p s \<and> var_X t = var_X s \<and> var_y t = var_y s
     \<and> var_n t = (if ks = [] then var_n s else last ks)"
  using assms
proof (induction ks arbitrary: s)
  case Nil
  then show ?case by simp
next
  case (Cons k ks)
  then obtain u where u: "sweep_body lib k s = Inr u"
    and rest: "for_loop (sweep_body lib) ks u = Inr t"
    by (auto simp: and_then_Inr)
  from Cons.IH[OF rest] sweep_body_frame[OF u] show ?case by simp
qed

lemma py_range_1_11: "py_range 1 11 = [1, 2, 3, 4, 5, 6, 7, 8, 9, 10]"
  by (simp add: py_range_def upto_rec1)

lemma cell4_frame:
  assumes "cell4 lib s = Inr t"
  shows "var_n t = 10" and "rng t = rng s" and "var_p t = var_p s"
    and "var_X t = var_X s" and "var_y t = var_y s"
  using for_loop_sweep_frame[OF assms[unfolded cell4_def]] by (simp_all add: py_range_1_11)

lemma for_loop_total:
  assumes "\<And>i s. \<exists>t. body i s = Inr t"
  shows "\<exists>t. for_loop body ks s = Inr t"
proof (induction ks arbitrary: s)
  case Nil
  show ?case by simp
next
  case (Cons k ks)
  from assms obtain u where "body k s = Inr u" by blast
  with Cons.IH[of u] show ?case by (simp add: and_then_simps)
qed

subsection \<open>Running the cells with the stand-in library\<close>

lemma cell3_stub:
  "\<exists>t. cell3 stub_sklearn s = Inr t
     \<and> stdout t = stdout s @ [R_squared_regression (first_target (var_y s)),
                               R_squared_PLSR (first_target (var_y s))]"
  by (simp add: cell3_def Let_def and_then_simps stub_sklearn_def predict_lr_def score_lr_def
      fit_pls_def predict_pls_def score_pls_def LinearRegression_def PLSRegression_def)

lemma sweep_body_stub:
  "\<exists>t. sweep_body stub_sklearn i s = Inr t \<and> (\<exists>ls. stdout t = stdout s @ ls)"
  by (simp add: sweep_body_def Let_def and_then_simps stub_sklearn_def
      fit_pls_def predict_pls_def score_pls_def PLSRegression_def)

lemma for_loop_stub:
  "\<exists>t. for_loop (sweep_body stub_sklearn) ks s = Inr t \<and> (\<exists>ls. stdout t = stdout s @ ls)"
proof (induction ks arbitrary: s)
  case Nil
  show ?case by simp
next
  case (Cons k ks)
  from sweep_body_stub obtain u ls where u: "sweep_body stub_sklearn k s = Inr u"
    and ls: "stdout u = stdout s @ ls" by blast
  from Cons.IH[of u] obtain t ls' where t: "for_loop (sweep_body stub_sklearn) ks u = Inr t"
    and ls': "stdout t = stdout u @ ls'" by blast
  show ?case by (simp add: u t and_then_simps ls ls')
qed

lemma cell4_stub: "\<exists>t. cell4 stub_sklearn s = Inr t \<and> (\<exists>ls. stdout t = stdout s @ ls)"
  unfolding cell4_def by (rule for_loop_stub)

lemma notebook_stub:
  "\<exists>s2 s3 t ls. cell2 (fresh_kernel g) = Inr s2 \<and> cell3 stub_sklearn s2 = Inr s3
     \<and> cell4 stub_sklearn s3 = Inr t \<and> notebook stub_sklearn (fresh_kernel g) = Inr t
     \<and> stdout t = R_squared_regression (g !! 0 + 2 * g !! 1 + g !! 10000 + 5) # ls"
proof -
  obtain s2 where s2: "cell2 (fresh_kernel g :: (real, real) globals) = Inr s2"
    using cell2_runs by blast
  obtain s3 where s3: "cell3 stub_sklearn s2 = Inr s3"
    and out3: "stdout s3 = stdout s2 @ [R_squared_regression (first_target (var_y s2)),
                               R_squared_PLSR (first_target (var_y s2))]"
    using cell3_stub by blast
  obtain t ls where t: "cell4 stub_sklearn s3 = Inr t" and out4: "stdout t = stdout s3 @ ls"
    using cell4_stub by blast
  have "stdout s2 = []"
    using cell2_Inr(6)[OF s2] by (simp add: fresh_kernel_def)
  moreover have "first_target (var_y s2) = g !! 0 + 2 * g !! 1 + g !! 10000 + 5"
    using cell2_first_target[OF s2] by (simp add: fresh_kernel_def)
  ultimately have "stdout t = R_squared_regression (g !! 0 + 2 * g !! 1 + g !! 10000 + 5)
      # R_squared_PLSR (g !! 0 + 2 * g !! 1 + g !! 10000 + 5) # ls"
    by (simp add: out3 out4)
  moreover have "notebook stub_sklearn (fresh_kernel g) = Inr t"
    by (simp add: notebook_def s2 s3 t and_then_simps)
  ultimately show ?thesis using s2 s3 t by blast
qed

subsection \<open>A fit that differs only outside the valid component counts\<close>

lemma fit_pls_agree:
  assumes "\<forall>k M v. valid_n_components k M \<longrightarrow> f k M v = pls_fit lib k M v"
    and "valid_n_components (n_components est) M"
  shows "fit_pls (lib\<lparr>pls_fit := f\<rparr>) est M v = fit_pls lib est M v"
  using assms by (simp add: fit_pls_def)

lemma predict_pls_agree: "predict_pls (lib\<lparr>pls_fit := f\<rparr>) = predict_pls lib"
  by (intro ext) (simp add: predict_pls_def split: option.splits)

lemma score_pls_agree: "score_pls (lib\<lparr>pls_fit := f\<rparr>) = score_pls lib"
  by (intro ext) (simp add: score_pls_def split: option.splits)

lemma predict_lr_agree: "predict_lr (lib\<lparr>pls_fit := f\<rparr>) = predict_lr lib"
  by (intro ext) (simp add: predict_lr_def split: option.splits)

lemma score_lr_agree: "score_lr (lib\<lparr>pls_fit := f\<rparr>) = score_lr lib"
  by (intro ext) (simp add: score_lr_def split: option.splits)

lemma py_range_valid:
  assumes "shape M = (1000, 10)" and "k \<in> set (py_range 1 11)"
  shows "1 \<le> k \<and> k \<le> 10 \<and> valid_n_components k M"
  using assms by (auto simp: valid_n_components_def py_range_def)

lemma three_valid:
  assumes "shape M = (1000, 10)"
  shows "valid_n_components 3 M"
  using assms by (simp add: valid_n_components_def)

lemma cell3_agree:
  assumes f: "\<forall>k M v. valid_n_components k M \<longrightarrow> f k M v = pls_fit lib k M v"
    and X: "shape (var_X s) = (1000, 10)"
  shows "cell3 (lib\<lparr>pls_fit := f\<rparr>) s = cell3 lib s"
proof -
  have "fit_pls (lib\<lparr>pls_fit := f\<rparr>) (PLSRegression 3) (var_X s) v
      = fit_pls lib (PLSRegression 3) (var_X s) v" for v
    using fit_pls_agree[OF f] three_valid[OF X] by (simp add: PLSRegression_def)
  then show ?thesis
    by (simp add: cell3_def Let_def predict_pls_agree score_pls_agree predict_lr_agree
        score_lr_agree)
qed

lemma sweep_body_agree:
  assumes f: "\<forall>k M v. valid_n_components k M \<longrightarrow> f k M v = pls_fit lib k M v"
    and X: "valid_n_components i (var_X s)"
  shows "sweep_body (lib\<lparr>pls_fit := f\<rparr>) i s = sweep_body lib i s"
proof -
  have "fit_pls (lib\<lparr>pls_fit := f\<rparr>) (PLSRegression i) (var_X s) v
      = fit_pls lib (PLSRegression i) (var_X s) v" for v
    using fit_pls_agree[OF f] X by (simp add: PLSRegression_def)
  then show ?thesis
    by (simp add: sweep_body_def Let_def predict_pls_agree score_pls_agree)
qed

lemma for_loop_agree:
  assumes f: "\<forall>k M v. valid_n_components k M \<longrightarrow> f k M v = pls_fit lib k M v"
    and X: "\<forall>k \<in> set ks. valid_n_components k (var_X s)"
  shows "for_loop (sweep_body (lib\<lparr>pls_fit := f\<rparr>)) ks s = for_loop (sweep_body lib) ks s"
  using X
proof (induction ks arbitrary: s)
  case Nil
  show ?case by simp
next
  case (Cons k ks)
  have body: "sweep_body (lib\<lparr>pls_fit := f\<rparr>) k s = sweep_body lib k s"
    using sweep_body_agree[OF f] Cons.prems by simp
  show ?case
  proof (cases "sweep_body lib k s")
    case (Inl e)
    then show ?thesis by (simp add: body and_then_simps)
  next
    case (Inr u)
    from sweep_body_frame(4)[OF Inr] Cons.prems
    have "\<forall>k \<in> set ks. valid_n_components k (var_X u)" by simp
    from Cons.IH[OF this] show ?thesis by (simp add: body Inr and_then_simps)
  qed
qed

lemma notebook_agree:
  assumes f: "\<forall>k M v. valid_n_components k M \<longrightarrow> f k M v = pls_fit lib k M v"
  shows "notebook (lib\<lparr>pls_fit := f\<rparr>) s = notebook lib s"
proof -
  obtain s2 where s2: "cell2 s = Inr s2" using cell2_runs by blast
  have X2: "shape (var_X s2) = (1000, 10)" by (rule cell2_shape(2)[OF s2])
  have c3: "cell3 (lib\<lparr>pls_fit := f\<rparr>) s2 = cell3 lib s2" by (rule cell3_agree[OF f X2])
  show ?thesis
  proof (cases "cell3 lib s2")
    case (Inl e)
    then show ?thesis by (simp add: notebook_def s2 c3 and_then_simps)
  next
    case (Inr s3)
    from cell3_frame(4)[OF Inr] X2 have "shape (var_X s3) = (1000, 10)" by simp
    then have "\<forall>k \<in> set (py_range 1 11). valid_n_components k (var_X s3)"
      using py_range_valid by blast
    from for_loop_agree[OF f this] show ?thesis
      by (simp add: notebook_def s2 c3 Inr and_then_simps cell4_def)
  qed
qed

subsection \<open>The data of a run\<close>

text \<open>
  No cell seeds the generator: in a run from a fresh kernel, \<open>X\<close> is the first 10000
  samples of the generator's start-up state, laid out in rows, and \<open>y\<close> is built from
  \<open>X\<close> and the next 1000 samples.
\<close>

lemma notebook_Inr:
  assumes "notebook lib s = Inr t"
  obtains s2 s3 where "cell2 s = Inr s2" and "cell3 lib s2 = Inr s3" and "cell4 lib s3 = Inr t"
  using assms by (auto simp: notebook_def and_then_Inr)

lemma notebook_data:
  assumes "notebook lib (fresh_kernel g) = Inr t"
  shows "concat (var_X t) = stake 10000 g"
    and "var_y t = map (\<lambda>(row, e). row ! 0 + 2 * row ! 1 + e + 5)
           (zip (var_X t) (stake 1000 (sdrop 10000 g)))"
    and "first_target (var_y t) = g !! 0 + 2 * g !! 1 + g !! 10000 + 5"
proof -
  from assms obtain s2 s3 where s2: "cell2 (fresh_kernel g :: ('a, 'b) globals) = Inr s2"
    and s3: "cell3 lib s2 = Inr s3" and t: "cell4 lib s3 = Inr t"
    by (rule notebook_Inr)
  have X: "var_X t = var_X s2" and y: "var_y t = var_y s2"
    using cell3_frame(4,5)[OF s3] cell4_frame(4,5)[OF t] by simp_all
  show "concat (var_X t) = stake 10000 g"
    using cell2_shape(3)[OF s2] by (simp add: X fresh_kernel_def)
  show "var_y t = map (\<lambda>(row, e). row ! 0 + 2 * row ! 1 + e + 5)
           (zip (var_X t) (stake 1000 (sdrop 10000 g)))"
    using cell2_Inr(4)[OF s2] by (simp add: X y fresh_kernel_def)
  show "first_target (var_y t) = g !! 0 + 2 * g !! 1 + g !! 10000 + 5"
    using cell2_first_target[OF s2] by (simp add: y fresh_kernel_def)
qed

text \<open>
  C9. The sweep cell rebinds the global \<open>n\<close>: before it \<open>n\<close> is 1000, the number of
  rows of \<open>X\<close>; after it \<open>n\<close> is 10, the last loop index, and no longer the number of
  observations. \<open>X\<close>, \<open>y\<close> and \<open>p\<close> are as cell 2 left them.
\<close>

theorem sweep_rebinds_n:
  assumes "cell2 s0 = Inr s2" and "cell3 lib s2 = Inr s3" and "cell4 lib s3 = Inr s4"
  shows "var_n s3 = 1000 \<and> int (length (var_X s3)) = var_n s3
    \<and> var_n s4 = 10 \<and> var_n s4 \<noteq> int (length (var_X s4))
    \<and> var_X s4 = var_X s3 \<and> var_y s4 = var_y s3 \<and> var_p s4 = var_p s3 \<and> var_p s4 = 10"
  using cell2_Inr(1,2)[OF assms(1)] cell2_shape(1)[OF assms(1)]
    cell3_frame[OF assms(2)] cell4_frame[OF assms(3)]
  by simp

theorem sweep_rebinds_n_witness:
  "\<exists>s2 s3 s4. cell2 (fresh_kernel (sconst 0)) = Inr s2 \<and> cell3 stub_sklearn s2 = Inr s3
     \<and> cell4 stub_sklearn s3 = Inr s4
     \<and> var_n s3 = 1000 \<and> var_n s4 = 10 \<and> var_n s4 \<noteq> int (length (var_X s4))
     \<and> var_X s4 = var_X s3 \<and> var_y s4 = var_y s3 \<and> var_p s4 = var_p s3"
proof -
  from notebook_stub[of "sconst 0"] obtain s2 s3 s4
    where s2: "cell2 (fresh_kernel (sconst 0)) = Inr s2"
      and s3: "cell3 stub_sklearn s2 = Inr s3"
      and s4: "cell4 stub_sklearn s3 = Inr s4"
    by blast
  from sweep_rebinds_n[OF s2 s3 s4] s2 s3 s4 show ?thesis by blast
qed

text \<open>
  C10. \<open>X\<close> is 1000 by 10, so \<open>min n p = 10\<close>; the component count of cell 3's estimator
  is 3 and that of the sweep's estimator is the loop index, one of 1 to 10; each is in
  range for \<open>X\<close>. The branch of \<^verbatim>\<open>fit\<close> for a component count out of range is
  therefore never taken: replacing \<^verbatim>\<open>fit\<close> by any \<open>f\<close> that agrees with it on the
  counts in range leaves the whole run of the notebook as it was.
\<close>

theorem notebook_component_counts_in_range:
  assumes "cell2 s0 = Inr s2"
  shows "shape (var_X s2) = (1000, 10)
    \<and> (case shape (var_X s2) of (n, p) \<Rightarrow> min n p) = 10
    \<and> valid_n_components 3 (var_X s2)
    \<and> (\<forall>k \<in> set (py_range 1 11). 1 \<le> k \<and> k \<le> 10 \<and> valid_n_components k (var_X s2))
    \<and> (\<forall>s3. cell3 lib s2 = Inr s3 \<longrightarrow>
          n_components (var_pls1 s3) = 3 \<and> var_X s3 = var_X s2)
    \<and> (\<forall>i s t. sweep_body lib i s = Inr t \<longrightarrow>
          n_components (var_pls1 t) = i \<and> var_X t = var_X s)
    \<and> (\<forall>f. (\<forall>k M v. valid_n_components k M \<longrightarrow> f k M v = pls_fit lib k M v) \<longrightarrow>
          notebook (lib\<lparr>pls_fit := f\<rparr>) s0 = notebook lib s0)"
proof -
  have X: "shape (var_X s2) = (1000, 10)" by (rule cell2_shape(2)[OF assms])
  have "\<forall>k \<in> set (py_range 1 11). 1 \<le> k \<and> k \<le> 10 \<and> valid_n_components k (var_X s2)"
    using py_range_valid[OF X] by blast
  moreover have "\<forall>s3. cell3 lib s2 = Inr s3 \<longrightarrow>
          n_components (var_pls1 s3) = 3 \<and> var_X s3 = var_X s2"
    using cell3_frame(4,6) by blast
  moreover have "\<forall>i s t. sweep_body lib i s = Inr t \<longrightarrow>
          n_components (var_pls1 t) = i \<and> var_X t = var_X s"
    using sweep_body_frame(4,6) by blast
  moreover have "\<forall>f. (\<forall>k M v. valid_n_components k M \<longrightarrow> f k M v = pls_fit lib k M v) \<longrightarrow>
          notebook (lib\<lparr>pls_fit := f\<rparr>) s0 = notebook lib s0"
    using notebook_agree by blast
  ultimately show ?thesis using X three_valid[OF X] by simp
qed

theorem notebook_component_counts_in_range_witness:
  "\<exists>s2. cell2 (fresh_kernel (sconst 0) :: (real, real) globals) = Inr s2
     \<and> shape (var_X s2) = (1000, 10)
     \<and> valid_n_components 3 (var_X s2) \<and> valid_n_components 10 (var_X s2)
     \<and> \<not> valid_n_components 11 (var_X s2)
     \<and> notebook
          (stub_sklearn\<lparr>pls_fit := \<lambda>k M v.
             if valid_n_components k M then Inr (first_target v) else Inl ValueError\<rparr>)
          (fresh_kernel (sconst 0))
        = notebook stub_sklearn (fresh_kernel (sconst 0))"
proof -
  let ?f = "\<lambda>k M v. if valid_n_components k M then Inr (first_target v) else Inl ValueError"
  obtain s2 where s2: "cell2 (fresh_kernel (sconst 0) :: (real, real) globals) = Inr s2"
    using cell2_runs by blast
  have f: "\<forall>k M v. valid_n_components k M \<longrightarrow> ?f k M v = pls_fit stub_sklearn k M v"
    by (simp add: stub_sklearn_def)
  have ten: "(10::int) \<in> set (py_range 1 11)" by (simp add: py_range_1_11)
  note range = notebook_component_counts_in_range[OF s2, of stub_sklearn]
  from range have X: "shape (var_X s2) = (1000, 10)"
    and three: "valid_n_components 3 (var_X s2)"
    and all: "\<forall>k \<in> set (py_range 1 11). 1 \<le> k \<and> k \<le> 10 \<and> valid_n_components k (var_X s2)"
    by blast+
  from all ten have "valid_n_components 10 (var_X s2)" by blast
  moreover from X have "\<not> valid_n_components 11 (var_X s2)"
    by (simp add: valid_n_components_def)
  moreover have "notebook (stub_sklearn\<lparr>pls_fit := ?f\<rparr>) (fresh_kernel (sconst 0))
           = notebook stub_sklearn (fresh_kernel (sconst 0))"
    using range[THEN conjunct2, THEN conjunct2, THEN conjunct2, THEN conjunct2,
        THEN conjunct2, THEN conjunct2, THEN spec, of ?f] f
    by (rule mp)
  moreover note X three
  ultimately show ?thesis using s2 by blast
qed

section \<open>Properties of the fitter\<close>

subsection \<open>Vectors, centering\<close>

lemma is_matrix_rows: "is_matrix M \<Longrightarrow> row \<in> set M \<Longrightarrow> length row = ncols M"
  by (simp add: is_matrix_def list_all_iff)

lemma length_columns: "length (columns M) = ncols M"
  by (simp add: columns_def)

lemma length_col_means: "length (col_means M) = ncols M"
  by (simp add: col_means_def length_columns)

lemma length_tmult: "length (tmult M v) = ncols M"
  by (simp add: tmult_def length_columns)

lemma length_normalized: "length (normalized v) = length v"
  by (simp add: normalized_def scale_def)

lemma length_vsub: "length (vsub a b) = min (length a) (length b)"
  by (simp add: vsub_def)

lemma vsub_zeros: "length a = k \<Longrightarrow> vsub a (replicate k 0) = a"
  by (auto simp: vsub_def intro!: nth_equalityI)

lemma scale_zero: "scale 0 v = replicate (length v) 0"
  by (simp add: scale_def map_replicate_const)

lemma scale_zeros: "scale c (replicate k 0) = replicate k 0"
  by (simp add: scale_def)

lemma dot_zeros_right: "dot a (replicate k 0) = 0"
proof -
  have "map (\<lambda>(u, v). u * v) (zip a (replicate k (0::real))) = replicate (min (length a) k) 0"
    by (auto intro!: nth_equalityI)
  then show ?thesis by (simp add: dot_def sum_list_replicate)
qed

lemma dot_zeros_left: "dot (replicate k 0) b = 0"
proof -
  have "map (\<lambda>(u, v). u * v) (zip (replicate k (0::real)) b) = replicate (min k (length b)) 0"
    by (auto intro!: nth_equalityI)
  then show ?thesis by (simp add: dot_def sum_list_replicate)
qed

lemma sum_list_shift: "sum_list (map (\<lambda>u. u - c) v) = sum_list v - real (length v) * c"
  by (induction v) (simp_all add: algebra_simps)

lemma mean_shift: "v \<noteq> [] \<Longrightarrow> mean (map (\<lambda>u. u - mean v) v) = 0"
  by (simp add: mean_def sum_list_shift)

lemma mean_center_vec: "mean (center_vec y) = 0"
  by (cases "y = []") (simp_all add: center_vec_def mean_shift, simp add: mean_def)

lemma center_vec_idem: "center_vec (center_vec y) = center_vec y"
  by (simp add: mean_center_vec center_vec_def[of "center_vec y"])

lemma length_center_vec: "length (center_vec y) = length y"
  by (simp add: center_vec_def)

lemma length_center_rows: "length (center_rows M mu) = length M"
  by (simp add: center_rows_def)

lemma ncols_center_rows:
  "length mu = ncols M \<Longrightarrow> ncols (center_rows M mu) = ncols M"
  by (cases M) (simp_all add: ncols_def center_rows_def length_vsub)

lemma is_matrix_center_rows:
  assumes "is_matrix M" and "length mu = ncols M"
  shows "is_matrix (center_rows M mu)"
  using assms ncols_center_rows[OF assms(2)]
  by (auto simp: is_matrix_def list_all_iff center_rows_def length_vsub)

lemma columns_center_rows:
  assumes "is_matrix M" and "length mu = ncols M"
  shows "columns (center_rows M mu) = map (\<lambda>(c, m). map (\<lambda>u. u - m) c) (zip (columns M) mu)"
proof (rule nth_equalityI)
  show "length (columns (center_rows M mu)) = length (map (\<lambda>(c, m). map (\<lambda>u. u - m) c) (zip (columns M) mu))"
    by (simp add: length_columns ncols_center_rows assms)
next
  fix j assume "j < length (columns (center_rows M mu))"
  then have j: "j < ncols M" by (simp add: length_columns ncols_center_rows assms)
  have "map (\<lambda>row. row ! j) (center_rows M mu) = map (\<lambda>u. u - mu ! j) (map (\<lambda>row. row ! j) M)"
    using j assms by (auto simp: center_rows_def vsub_def dest: is_matrix_rows)
  then show "columns (center_rows M mu) ! j = map (\<lambda>(c, m). map (\<lambda>u. u - m) c) (zip (columns M) mu) ! j"
    using j assms by (simp add: columns_def ncols_center_rows)
qed

lemma col_means_centered:
  assumes "is_matrix M" and "M \<noteq> []"
  shows "col_means (center_rows M (col_means M)) = replicate (ncols M) 0"
proof (rule nth_equalityI)
  show "length (col_means (center_rows M (col_means M))) = length (replicate (ncols M) (0::real))"
    by (simp add: length_col_means ncols_center_rows)
next
  fix j assume "j < length (col_means (center_rows M (col_means M)))"
  then have j: "j < ncols M" by (simp add: length_col_means ncols_center_rows)
  have ne: "columns M ! j \<noteq> []" using j assms(2) by (simp add: columns_def)
  have "col_means (center_rows M (col_means M)) ! j
      = mean (map (\<lambda>u. u - mean (columns M ! j)) (columns M ! j))"
    using j by (simp add: col_means_def[of "center_rows M (col_means M)"]
        columns_center_rows[OF assms(1) length_col_means] length_columns length_col_means)
      (simp add: col_means_def length_columns)
  then show "col_means (center_rows M (col_means M)) ! j = replicate (ncols M) 0 ! j"
    using j mean_shift[OF ne] by simp
qed

lemma center_rows_zeros:
  assumes "is_matrix M"
  shows "center_rows M (replicate (ncols M) 0) = M"
  unfolding center_rows_def
  using assms by (auto intro!: map_idI vsub_zeros dest: is_matrix_rows)

lemma center_rows_idem:
  assumes "is_matrix M" and "M \<noteq> []"
  shows "center_rows (center_rows M (col_means M)) (col_means (center_rows M (col_means M)))
       = center_rows M (col_means M)"
proof -
  have "is_matrix (center_rows M (col_means M))"
    by (rule is_matrix_center_rows[OF assms(1) length_col_means])
  from center_rows_zeros[OF this] show ?thesis
    by (simp add: col_means_centered[OF assms] ncols_center_rows length_col_means)
qed

lemma dot_vsub:
  assumes "length a = length b" and "length b = length c"
  shows "dot (vsub a b) c = dot a c - dot b c"
  using assms by (induction a b c rule: list_induct3) (simp_all add: dot_def vsub_def algebra_simps)

lemma length_collapse: "length (collapse p cs) = p"
  by (simp add: collapse_def)

lemma fit_Inr:
  assumes "fit X y k = Inr m"
  shows "length X = length y" and "1 \<le> k" and "k \<le> int (length X)" and "k \<le> int (ncols X)"
    and "components m = extract_components (nat k) (center_rows X (col_means X)) (center_vec y)"
    and "coefficients m = collapse (ncols X) (components m)"
    and "intercept m = mean y - dot (col_means X) (coefficients m)"
  using assms by (auto simp: fit_def Let_def split: if_splits)

lemma fit_centered:
  assumes X: "is_matrix X" and m: "fit X y k = Inr m"
  shows "fit (center_rows X (col_means X)) (center_vec y) k
     = Inr \<lparr>components = components m, coefficients = coefficients m, intercept = 0\<rparr>"
proof -
  note f = fit_Inr[OF m]
  from f(2,3) have ne: "X \<noteq> []" by auto
  let ?Xc = "center_rows X (col_means X)"
  have nc: "ncols ?Xc = ncols X" by (simp add: ncols_center_rows length_col_means)
  have guard: "\<not> (length ?Xc \<noteq> length (center_vec y) \<or> k < 1
      \<or> k > min (int (length ?Xc)) (int (ncols ?Xc)))"
    using f(1-4) by (simp add: length_center_rows length_center_vec nc)
  have means: "col_means ?Xc = replicate (ncols X) 0"
    by (rule col_means_centered[OF X ne])
  have again: "center_rows ?Xc (col_means ?Xc) = ?Xc"
    by (rule center_rows_idem[OF X ne])
  have "fit ?Xc (center_vec y) k
      = Inr \<lparr>components = extract_components (nat k) (center_rows ?Xc (col_means ?Xc))
                 (center_vec (center_vec y)),
             coefficients = collapse (ncols ?Xc) (extract_components (nat k)
                 (center_rows ?Xc (col_means ?Xc)) (center_vec (center_vec y))),
             intercept = mean (center_vec y) - dot (col_means ?Xc) (collapse (ncols ?Xc)
                 (extract_components (nat k) (center_rows ?Xc (col_means ?Xc))
                    (center_vec (center_vec y))))\<rparr>"
    using guard by (simp add: fit_def[of ?Xc] Let_def)
  also have "\<dots> = Inr \<lparr>components = components m, coefficients = coefficients m, intercept = 0\<rparr>"
    unfolding again center_vec_idem nc mean_center_vec
    by (simp add: means dot_zeros_left f(5,6))
  finally show ?thesis .
qed

lemma predict_centered:
  assumes b: "length (coefficients m) = length mu"
    and rows: "list_all (\<lambda>row. length row = length mu) X_new"
  shows "predict (m\<lparr>intercept := c - dot mu (coefficients m)\<rparr>) X_new
     = (case predict (m\<lparr>intercept := 0\<rparr>) (center_rows X_new mu) of
          Inl e \<Rightarrow> Inl e | Inr v \<Rightarrow> Inr (map (\<lambda>u. u + c) v))"
proof -
  have "list_all (\<lambda>row. length row = length (coefficients m)) (center_rows X_new mu)"
    using rows b by (auto simp: list_all_iff center_rows_def length_vsub)
  moreover have "dot row (coefficients m) + (c - dot mu (coefficients m))
      = dot (vsub row mu) (coefficients m) + 0 + c" if "row \<in> set X_new" for row
    using that rows b by (simp add: dot_vsub list_all_iff)
  ultimately show ?thesis
    using rows b by (simp add: predict_def center_rows_def list_all_iff)
qed

lemma dot_Cons: "dot (u # a) (v # b) = u * v + dot a b"
  by (simp add: dot_def)

lemma dot_Nil: "dot [] b = 0" "dot a [] = 0"
  by (simp_all add: dot_def)

lemma dot_sum: "length a = length b \<Longrightarrow> dot a b = (\<Sum>j<length a. a ! j * b ! j)"
proof (induction a b rule: list_induct2)
  case Nil
  show ?case by (simp add: dot_Nil)
next
  case (Cons u a v b)
  have "(\<Sum>j<Suc (length a). (u # a) ! j * (v # b) ! j) = u * v + (\<Sum>j<length a. a ! j * b ! j)"
    by (subst sum.lessThan_Suc_shift) simp
  with Cons show ?case by (simp add: dot_Cons del: sum.lessThan_Suc)
qed

lemma dot_scale: "dot (scale t a) b = t * dot a b"
proof (induction a arbitrary: b)
  case Nil
  show ?case by (simp add: scale_def dot_Nil)
next
  case (Cons u a)
  show ?case
  proof (cases b)
    case Nil
    then show ?thesis by (simp add: dot_Nil)
  next
    case (Cons v b')
    with Cons.IH[of b'] show ?thesis
      by (simp add: scale_def dot_Cons algebra_simps)
  qed
qed

lemma dot_unit_vec: "j < p \<Longrightarrow> length v = p \<Longrightarrow> dot (unit_vec p j) v = v ! j"
proof -
  assume j: "j < p" and v: "length v = p"
  have "dot (unit_vec p j) v = (\<Sum>i<p. unit_vec p j ! i * v ! i)"
    using dot_sum[of "unit_vec p j" v] v by (simp add: unit_vec_def)
  also have "\<dots> = (\<Sum>i<p. if i = j then v ! i else 0)"
    by (intro sum.cong) (auto simp: unit_vec_def nth_list_update)
  also have "\<dots> = v ! j" using j by simp
  finally show ?thesis .
qed

lemma length_unit_vec: "length (unit_vec p j) = p"
  by (simp add: unit_vec_def)

text \<open>
  The coefficient vector reproduces the chain of components: on an input that has one
  entry per feature, the inner product with the collapsed coefficients is what applying
  the components one after the other gives.
\<close>

lemma collapse_reproduces_chain:
  assumes "\<forall>c \<in> set cs. length (weight c) = p \<and> length (loading c) = p"
    and "length x = p"
  shows "dot x (collapse p cs) = apply_components cs x"
  using assms
proof (induction cs arbitrary: x)
  case Nil
  have "collapse p [] = replicate p 0"
    by (simp add: collapse_def map_replicate_const)
  then show ?case by (simp add: dot_zeros_right)
next
  case (Cons c cs)
  let ?w = "weight c" and ?P = "loading c" and ?q = "target_weight c"
  let ?B = "collapse p cs"
  from Cons.prems have w: "length ?w = p" and P: "length ?P = p"
    and cs: "\<forall>c \<in> set cs. length (weight c) = p \<and> length (loading c) = p"
    by simp_all
  have B: "length ?B = p" by (rule length_collapse)
  have chain: "apply_components cs v = dot v ?B" if "length v = p" for v
    using Cons.IH[OF cs that] by simp
  have entry: "collapse p (c # cs) ! j = ?w ! j * ?q + (?B ! j - ?w ! j * dot ?P ?B)"
    if j: "j < p" for j
  proof -
    have "length (vsub (unit_vec p j) (scale (?w ! j) ?P)) = p"
      by (simp add: length_vsub length_unit_vec scale_def P)
    from chain[OF this] show ?thesis
      using j by (simp add: collapse_def Let_def dot_unit_vec w B dot_vsub length_unit_vec
          scale_def[of _ ?P, THEN arg_cong[of _ _ length]] P dot_scale)
  qed
  have "dot x (collapse p (c # cs)) = (\<Sum>j<p. x ! j * collapse p (c # cs) ! j)"
    using dot_sum[of x "collapse p (c # cs)"] Cons.prems(2) by (simp add: length_collapse)
  also have "\<dots> = (\<Sum>j<p. x ! j * (?w ! j * ?q + (?B ! j - ?w ! j * dot ?P ?B)))"
    by (intro sum.cong) (simp_all add: entry)
  also have "\<dots> = (\<Sum>j<p. x ! j * ?w ! j) * ?q
      + ((\<Sum>j<p. x ! j * ?B ! j) - (\<Sum>j<p. x ! j * ?w ! j) * dot ?P ?B)"
    by (simp add: algebra_simps sum.distrib sum_subtractf sum_distrib_left sum_distrib_right)
  also have "\<dots> = dot x ?w * ?q + (dot x ?B - dot x ?w * dot ?P ?B)"
    using dot_sum[of x ?w] dot_sum[of x ?B] Cons.prems(2) w B by simp
  also have "\<dots> = dot x ?w * ?q + dot (vsub x (scale (dot x ?w) ?P)) ?B"
    using Cons.prems(2) P B by (simp add: dot_vsub dot_scale scale_def[THEN arg_cong[of _ _ length]])
  also have "\<dots> = apply_components (c # cs) x"
  proof -
    have "length (vsub x (scale (dot x ?w) ?P)) = p"
      using Cons.prems(2) P by (simp add: length_vsub scale_def)
    from chain[OF this] show ?thesis by (simp add: Let_def)
  qed
  finally show ?case .
qed

subsection \<open>Centering invariance\<close>

lemma sqrt_16: "sqrt 16 = 4"
  using real_sqrt_abs[of 4] by simp

lemmas fitter_defs = fit_def ncols_def col_means_def columns_def mean_def center_rows_def
  center_vec_def vsub_def extract_component_def Let_def tmult_def dot_def normalized_def
  scale_def deflate_X_def deflate_y_def collapse_def unit_vec_def is_matrix_def

text \<open>The fit of the two observations \<open>(1, 3)\<close> and \<open>(3, 7)\<close>: the line \<open>y = 2 x + 1\<close>.\<close>

lemma fit_line:
  "fit [[1], [3]] [3, 7] 1
     = Inr \<lparr>components = [\<lparr>weight = [1], target_weight = 2, loading = [1],
                             score_vector = [-1, 1]\<rparr>],
            coefficients = [2], intercept = 1\<rparr>"
  by (simp add: fitter_defs sqrt_16)

text \<open>
  C6. Centering invariance, for the fitter of the specification. Let \<open>fit X y k\<close>
  return the model \<open>m\<close>. Fitting on the centered data (the column means taken off \<open>X\<close>,
  the mean taken off \<open>y\<close>) returns a model \<open>mc\<close> with the same components and
  coefficients and intercept 0, and adding the means' contribution back into its intercept
  gives \<open>m\<close> itself. So the predictions are identical on every new input, whether the
  means are added to the intercept or the new input is centered and the target mean added
  to the prediction, and the R-squared score is identical.
\<close>

theorem centering_invariance:
  assumes "is_matrix X" and "fit X y k = Inr m"
  shows "\<exists>mc. fit (center_rows X (col_means X)) (center_vec y) k = Inr mc
    \<and> components mc = components m \<and> coefficients mc = coefficients m \<and> intercept mc = 0
    \<and> add_means_back X y mc = m
    \<and> (\<forall>X_new. predict (add_means_back X y mc) X_new = predict m X_new)
    \<and> (\<forall>X_new. list_all (\<lambda>row. length row = ncols X) X_new \<longrightarrow>
          (case predict mc (center_rows X_new (col_means X)) of
             Inl e \<Rightarrow> Inl e | Inr v \<Rightarrow> Inr (map (\<lambda>u. u + mean y) v))
          = predict m X_new)
    \<and> score (add_means_back X y mc) X y = score m X y"
proof -
  define mc where "mc = \<lparr>components = components m, coefficients = coefficients m, intercept = 0\<rparr>"
  note f = fit_Inr[OF assms(2)]
  have fit_c: "fit (center_rows X (col_means X)) (center_vec y) k = Inr mc"
    unfolding mc_def by (rule fit_centered[OF assms])
  have m: "add_means_back X y mc = m"
    by (simp add: add_means_back_def mc_def f(7))
  have b: "length (coefficients m) = length (col_means X)"
    by (simp add: f(6) length_collapse length_col_means)
  have "(case predict mc (center_rows X_new (col_means X)) of
           Inl e \<Rightarrow> Inl e | Inr v \<Rightarrow> Inr (map (\<lambda>u. u + mean y) v))
      = predict m X_new"
    if rows: "list_all (\<lambda>row. length row = ncols X) X_new" for X_new
  proof -
    have eq1: "m\<lparr>intercept := mean y - dot (col_means X) (coefficients m)\<rparr> = m"
      by (simp add: f(7)[symmetric])
    have eq2: "m\<lparr>intercept := 0\<rparr> = mc" by (simp add: mc_def)
    from predict_centered[OF b, of X_new "mean y"] rows show ?thesis
      by (simp add: eq1 eq2 length_col_means)
  qed
  then have centred: "\<forall>X_new. list_all (\<lambda>row. length row = ncols X) X_new \<longrightarrow>
          (case predict mc (center_rows X_new (col_means X)) of
             Inl e \<Rightarrow> Inl e | Inr v \<Rightarrow> Inr (map (\<lambda>u. u + mean y) v))
          = predict m X_new"
    by blast
  have parts: "components mc = components m" "coefficients mc = coefficients m" "intercept mc = 0"
    by (simp_all add: mc_def)
  have same: "\<forall>X_new. predict (add_means_back X y mc) X_new = predict m X_new"
    and score: "score (add_means_back X y mc) X y = score m X y"
    by (simp_all add: m)
  show ?thesis
    by (rule exI[of _ mc]) (intro conjI fit_c parts m same centred score)
qed

theorem centering_invariance_witness:
  "is_matrix [[1], [3]]
   \<and> fit [[1], [3]] [3, 7] 1
       = Inr \<lparr>components = [\<lparr>weight = [1], target_weight = 2, loading = [1],
                               score_vector = [-1, 1]\<rparr>],
              coefficients = [2], intercept = 1\<rparr>
   \<and> (\<exists>mc. fit (center_rows [[1], [3]] (col_means [[1], [3]])) (center_vec [3, 7]) 1 = Inr mc
         \<and> coefficients mc = [2] \<and> intercept mc = 0
         \<and> predict (add_means_back [[1], [3]] [3, 7] mc) [[5]] = Inr [11])"
proof -
  let ?m = "\<lparr>components = [\<lparr>weight = [1], target_weight = 2, loading = [1],
                           score_vector = [-1, 1]\<rparr>],
          coefficients = [2], intercept = 1\<rparr>"
  have X: "is_matrix [[1], [3]]" by (simp add: is_matrix_def ncols_def)
  have p: "predict ?m [[5]] = Inr [11]"
    by (simp add: predict_def dot_def)
  from centering_invariance[OF X fit_line]
  obtain mc where "fit (center_rows [[1], [3]] (col_means [[1], [3]])) (center_vec [3, 7]) 1 = Inr mc"
    and "coefficients mc = coefficients ?m" and "intercept mc = 0"
    and "add_means_back [[1], [3]] [3, 7] mc = ?m"
    by blast
  then have "\<exists>mc. fit (center_rows [[1], [3]] (col_means [[1], [3]])) (center_vec [3, 7]) 1 = Inr mc
         \<and> coefficients mc = [2] \<and> intercept mc = 0
         \<and> predict (add_means_back [[1], [3]] [3, 7] mc) [[5]] = Inr [11]"
    using p by (intro exI[of _ mc]) simp
  with X fit_line show ?thesis by blast
qed

subsection \<open>Saturation\<close>

lemma is_zero_vec_iff: "is_zero_vec v \<longleftrightarrow> v = replicate (length v) 0"
  by (auto simp: is_zero_vec_def list_all_iff intro!: nth_equalityI dest: replicate_eqI)
     (metis in_set_replicate)

lemma tmult_zero:
  assumes "is_matrix E" and "is_zero_mat E \<or> is_zero_vec f"
  shows "tmult E f = replicate (ncols E) 0"
proof (rule nth_equalityI)
  show "length (tmult E f) = length (replicate (ncols E) (0::real))"
    by (simp add: length_tmult)
next
  fix j assume "j < length (tmult E f)"
  then have j: "j < ncols E" by (simp add: length_tmult)
  from assms(2) have "dot (columns E ! j) f = 0"
  proof
    assume "is_zero_mat E"
    then have "row \<in> set E \<Longrightarrow> row ! j = 0" for row
      using j is_matrix_rows[OF assms(1)]
      by (auto simp: is_zero_mat_def is_zero_vec_def list_all_iff)
    then have "columns E ! j = replicate (length E) 0"
      using j by (auto simp: columns_def intro!: nth_equalityI)
    then show ?thesis by (simp add: dot_zeros_left)
  next
    assume "is_zero_vec f"
    then have "f = replicate (length f) 0" by (simp add: is_zero_vec_iff)
    then show ?thesis using dot_zeros_right by metis
  qed
  then show "tmult E f ! j = replicate (ncols E) 0 ! j"
    using j by (simp add: tmult_def length_columns)
qed

lemma normalized_zeros: "normalized (replicate p 0) = replicate p 0"
  by (simp add: normalized_def dot_zeros_left)

lemma extract_zero:
  assumes "is_matrix E" and "is_zero_mat E \<or> is_zero_vec f"
  shows "extract_component E f = zero_component (length E) (ncols E)"
proof -
  have t: "map (\<lambda>row. dot row (replicate (ncols E) 0)) E = replicate (length E) 0"
    by (simp add: dot_zeros_right map_replicate_const)
  show ?thesis
    by (simp add: extract_component_def tmult_zero[OF assms] normalized_zeros t
        dot_zeros_left zero_component_def Let_def)
qed

lemma deflate_X_zero:
  assumes "is_matrix E"
  shows "deflate_X E (zero_component (length E) (ncols E)) = E"
proof -
  have "vsub row (scale 0 (replicate (ncols E) 0)) = row" if "row \<in> set E" for row
    using that is_matrix_rows[OF assms] by (simp add: scale_zeros vsub_zeros)
  then have "map (\<lambda>(row, ti). vsub row (scale ti (replicate (ncols E) 0))) (zip E (replicate (length E) 0)) = E"
    by (intro nth_equalityI) (simp_all add: scale_zeros)
  then show ?thesis by (simp add: deflate_X_def zero_component_def)
qed

lemma deflate_y_zero:
  assumes "length f = n"
  shows "deflate_y f (zero_component n p) = f"
  using assms by (simp add: deflate_y_def zero_component_def scale_zeros vsub_zeros)

lemma extract_components_zero:
  assumes "is_matrix E" and "length f = length E" and "is_zero_mat E \<or> is_zero_vec f"
  shows "extract_components i E f = replicate i (zero_component (length E) (ncols E))"
  by (induction i)
    (simp_all add: Let_def extract_zero[OF assms(1,3)] deflate_X_zero[OF assms(1)]
      deflate_y_zero[OF assms(2)])

lemma apply_zero_components: "apply_components (replicate i (zero_component n p)) x = 0"
  by (induction i arbitrary: x) (simp_all add: Let_def zero_component_def dot_zeros_right)

lemma apply_components_append_zero:
  "apply_components (cs @ replicate i (zero_component n p)) x = apply_components cs x"
  by (induction cs arbitrary: x) (simp_all add: Let_def apply_zero_components)

lemma collapse_append_zero:
  "collapse q (cs @ replicate i (zero_component n p)) = collapse q cs"
  by (simp add: collapse_def apply_components_append_zero)

lemma extract_components_add:
  "extract_components (i + j) E f
     = extract_components i E f @ (case residuals i E f of (E', f') \<Rightarrow> extract_components j E' f')"
  by (induction i arbitrary: E f) (simp_all add: Let_def)

lemma extract_component_lengths:
  "length (loading (extract_component E f)) = ncols E"
  "length (score_vector (extract_component E f)) = length E"
  "length (weight (extract_component E f)) = ncols E"
  by (simp_all add: extract_component_def Let_def scale_def length_tmult length_normalized)

lemma deflate_X_shape:
  assumes "is_matrix E" and "length (loading c) = ncols E" and "length (score_vector c) = length E"
  shows "length (deflate_X E c) = length E" and "ncols (deflate_X E c) = ncols E"
    and "is_matrix (deflate_X E c)"
proof -
  show len: "length (deflate_X E c) = length E"
    using assms(3) by (simp add: deflate_X_def)
  have rows: "length row = ncols E" if "row \<in> set (deflate_X E c)" for row
  proof -
    from that obtain r ti where "(r, ti) \<in> set (zip E (score_vector c))"
      and row: "row = vsub r (scale ti (loading c))"
      by (auto simp: deflate_X_def)
    then have "r \<in> set E" by (auto dest: set_zip_leftD)
    with is_matrix_rows[OF assms(1)] assms(2) show ?thesis
      by (simp add: row length_vsub scale_def)
  qed
  show nc: "ncols (deflate_X E c) = ncols E"
  proof (cases "deflate_X E c")
    case Nil
    with len show ?thesis by (simp add: ncols_def)
  next
    case (Cons r rs)
    with rows[of r] show ?thesis by (simp add: ncols_def)
  qed
  show "is_matrix (deflate_X E c)"
    using rows by (simp add: is_matrix_def list_all_iff nc)
qed

lemma length_deflate_y:
  "length (score_vector c) = length f \<Longrightarrow> length (deflate_y f c) = length f"
  by (simp add: deflate_y_def length_vsub scale_def)

lemma residuals_shape:
  assumes "is_matrix E" and "length f = length E" and "residuals i E f = (E', f')"
  shows "is_matrix E' \<and> length E' = length E \<and> ncols E' = ncols E \<and> length f' = length E"
  using assms
proof (induction i arbitrary: E f)
  case 0
  then show ?case by simp
next
  case (Suc i)
  let ?c = "extract_component E f"
  note shape = deflate_X_shape[OF Suc.prems(1) extract_component_lengths(1,2)[of E f]]
  have y: "length (deflate_y f ?c) = length (deflate_X E ?c)"
    using Suc.prems(2) by (simp add: length_deflate_y extract_component_lengths shape(1))
  from Suc.prems(3) have "residuals i (deflate_X E ?c) (deflate_y f ?c) = (E', f')"
    by (simp add: Let_def)
  from Suc.IH[OF shape(3) y this] show ?case by (simp add: shape)
qed

lemma extract_components_lengths:
  assumes "is_matrix E" and "c \<in> set (extract_components i E f)"
  shows "length (weight c) = ncols E \<and> length (loading c) = ncols E"
  using assms
proof (induction i arbitrary: E f)
  case 0
  then show ?case by simp
next
  case (Suc i)
  let ?c = "extract_component E f"
  note shape = deflate_X_shape[OF Suc.prems(1) extract_component_lengths(1,2)[of E f]]
  from Suc.prems(2) have "c = ?c \<or> c \<in> set (extract_components i (deflate_X E ?c) (deflate_y f ?c))"
    by (simp add: Let_def)
  then show ?case
  proof
    assume "c = ?c"
    then show ?thesis by (simp add: extract_component_lengths)
  next
    assume "c \<in> set (extract_components i (deflate_X E ?c) (deflate_y f ?c))"
    from Suc.IH[OF shape(3) this] show ?thesis by (simp add: shape(2))
  qed
qed

text \<open>
  What a fitted model predicts for an observation is the target mean plus the chain of
  its components applied to the centered observation.
\<close>

lemma fit_predicts_by_chain:
  assumes X: "is_matrix X" and m: "fit X y k = Inr m" and x: "length x = ncols X"
  shows "predict m [x]
     = Inr [mean y + apply_components (components m) (vsub x (col_means X))]"
proof -
  note f = fit_Inr[OF m]
  have Xc: "is_matrix (center_rows X (col_means X))"
    by (rule is_matrix_center_rows[OF X length_col_means])
  have nc: "ncols (center_rows X (col_means X)) = ncols X"
    by (simp add: ncols_center_rows length_col_means)
  have cs: "\<forall>c \<in> set (components m). length (weight c) = ncols X \<and> length (loading c) = ncols X"
    using extract_components_lengths[OF Xc] by (simp add: f(5) nc)
  have "length (vsub x (col_means X)) = ncols X"
    by (simp add: length_vsub x length_col_means)
  from collapse_reproduces_chain[OF cs this]
  have chain: "apply_components (components m) (vsub x (col_means X))
      = dot (vsub x (col_means X)) (coefficients m)"
    by (simp only: f(6)[symmetric])
  have len: "length (coefficients m) = ncols X"
    by (subst f(6)) (rule length_collapse)
  have "dot (vsub x (col_means X)) (coefficients m)
      = dot x (coefficients m) - dot (col_means X) (coefficients m)"
    by (rule dot_vsub) (simp_all add: x length_col_means len)
  with chain show ?thesis
    by (simp add: predict_def x len f(7))
qed

lemma length_extract_components: "length (extract_components i E f) = i"
  by (induction i arbitrary: E f) (simp_all add: Let_def)

lemma predict_cong:
  "coefficients m = coefficients m' \<Longrightarrow> intercept m = intercept m' \<Longrightarrow>
     predict m X_new = predict m' X_new"
  by (simp add: predict_def)

text \<open>
  C5. Saturation, for the fitter of the specification. Let the residual feature matrix
  \<open>E\<close> or the residual target \<open>f\<close> be zero after iteration \<open>j\<close>, where
  \<open>1 \<le> j < k\<close> and \<open>k\<close> is a valid component count. Then \<open>fit\<close> raises neither for
  \<open>k\<close> nor for \<open>j\<close> components; the first \<open>j\<close> components of the two models are the
  same; the components \<open>j+1..k\<close> have zero weight, zero target weight and zero loading;
  and the two models have the same coefficients and intercept, so they predict the same on
  every new input.
\<close>

theorem saturated_components_add_nothing:
  assumes X: "is_matrix X" and len: "length X = length y"
    and j: "1 \<le> j" "j < k" and k: "k \<le> min (int (length X)) (int (ncols X))"
    and res: "residuals (nat j) (center_rows X (col_means X)) (center_vec y) = (E, f)"
    and zero: "is_zero_mat E \<or> is_zero_vec f"
  shows "\<exists>mk mj. fit X y k = Inr mk \<and> fit X y j = Inr mj
    \<and> take (nat j) (components mk) = components mj
    \<and> (\<forall>c \<in> set (drop (nat j) (components mk)).
          is_zero_vec (weight c) \<and> target_weight c = 0 \<and> is_zero_vec (loading c))
    \<and> coefficients mk = coefficients mj \<and> intercept mk = intercept mj
    \<and> (\<forall>X_new. predict mk X_new = predict mj X_new)"
proof -
  let ?Xc = "center_rows X (col_means X)" and ?yc = "center_vec y"
  let ?cs = "extract_components (nat j) ?Xc ?yc"
  let ?z = "zero_component (length E) (ncols E)"
  have Xc: "is_matrix ?Xc" by (rule is_matrix_center_rows[OF X length_col_means])
  have yc: "length ?yc = length ?Xc"
    by (simp add: length_center_vec length_center_rows len)
  from residuals_shape[OF Xc yc res]
  have E: "is_matrix E" and f: "length f = length E" by simp_all
  have split: "nat k = nat j + (nat k - nat j)" using j by simp
  have cs_k: "extract_components (nat k) ?Xc ?yc = ?cs @ replicate (nat k - nat j) ?z"
    by (subst split, subst extract_components_add)
      (simp add: res extract_components_zero[OF E f zero])
  have len_cs: "length ?cs = nat j"
    by (rule length_extract_components)
  define mj where "mj = \<lparr>components = ?cs, coefficients = collapse (ncols X) ?cs,
     intercept = mean y - dot (col_means X) (collapse (ncols X) ?cs)\<rparr>"
  define mk where "mk = \<lparr>components = ?cs @ replicate (nat k - nat j) ?z,
     coefficients = collapse (ncols X) ?cs,
     intercept = mean y - dot (col_means X) (collapse (ncols X) ?cs)\<rparr>"
  have guard_j: "\<not> (length X \<noteq> length y \<or> j < 1 \<or> j > min (int (length X)) (int (ncols X)))"
    and guard_k: "\<not> (length X \<noteq> length y \<or> k < 1 \<or> k > min (int (length X)) (int (ncols X)))"
    using len j k by auto
  have fit_j: "fit X y j = Inr mj"
    using guard_j by (simp add: fit_def Let_def mj_def)
  have fit_k: "fit X y k = Inr mk"
    using guard_k by (simp add: fit_def Let_def mk_def cs_k collapse_append_zero)
  have "is_zero_vec (replicate p 0)" for p
    by (simp add: is_zero_vec_def list_all_iff)
  then have zeros: "\<forall>c \<in> set (drop (nat j) (components mk)).
          is_zero_vec (weight c) \<and> target_weight c = 0 \<and> is_zero_vec (loading c)"
    by (auto simp: mk_def len_cs zero_component_def)
  have "take (nat j) (components mk) = components mj"
    by (simp add: mk_def mj_def len_cs)
  moreover have "coefficients mk = coefficients mj" "intercept mk = intercept mj"
    by (simp_all add: mk_def mj_def)
  moreover from this have "\<forall>X_new. predict mk X_new = predict mj X_new"
    using predict_cong by blast
  ultimately show ?thesis using fit_j fit_k zeros by blast
qed

lemma residuals_example:
  "residuals 1 (center_rows [[2, 1], [0, 1]] (col_means [[2, 1], [0, 1]])) (center_vec [4, 2])
     = ([[0, 0], [0, 0]], [0, 0])"
  by (simp add: fitter_defs upt_conv_Cons)

theorem saturated_components_add_nothing_witness:
  "is_matrix [[2, 1], [0, 1]] \<and> is_zero_vec [0, 0]
   \<and> residuals 1 (center_rows [[2, 1], [0, 1]] (col_means [[2, 1], [0, 1]])) (center_vec [4, 2])
     = ([[0, 0], [0, 0]], [0, 0])
   \<and> (\<exists>mk mj. fit [[2, 1], [0, 1]] [4, 2] 2 = Inr mk \<and> fit [[2, 1], [0, 1]] [4, 2] 1 = Inr mj
         \<and> take 1 (components mk) = components mj
         \<and> coefficients mk = coefficients mj \<and> intercept mk = intercept mj
         \<and> predict mk [[5, 7]] = predict mj [[5, 7]])"
proof -
  have X: "is_matrix [[2, 1], [0, 1]]" by (simp add: is_matrix_def ncols_def)
  have zv: "is_zero_vec [0, 0]" by (simp add: is_zero_vec_def)
  then have z: "is_zero_mat [[0, 0], [0, 0]] \<or> is_zero_vec [0, 0]" by simp
  have len: "length [[2, 1], [0, 1::real]] = length [4, 2::real]" by simp
  have j: "(1::int) \<le> 1" "(1::int) < 2" by simp_all
  have k: "(2::int) \<le> min (int (length [[2, 1], [0, 1::real]])) (int (ncols [[2, 1], [0, 1]]))"
    by (simp add: ncols_def)
  have res: "residuals (nat 1) (center_rows [[2, 1], [0, 1]] (col_means [[2, 1], [0, 1]]))
      (center_vec [4, 2]) = ([[0, 0], [0, 0]], [0, 0])"
    using residuals_example by simp
  from saturated_components_add_nothing[OF X len j k res z]
  obtain mk mj where "fit [[2, 1], [0, 1]] [4, 2] 2 = Inr mk" "fit [[2, 1], [0, 1]] [4, 2] 1 = Inr mj"
    "take (nat 1) (components mk) = components mj"
    "coefficients mk = coefficients mj" "intercept mk = intercept mj"
    "\<forall>X_new. predict mk X_new = predict mj X_new"
    by blast
  then have "\<exists>mk mj. fit [[2, 1], [0, 1]] [4, 2] 2 = Inr mk \<and> fit [[2, 1], [0, 1]] [4, 2] 1 = Inr mj
         \<and> take 1 (components mk) = components mj
         \<and> coefficients mk = coefficients mj \<and> intercept mk = intercept mj
         \<and> predict mk [[5, 7]] = predict mj [[5, 7]]"
    by (intro exI[of _ mk] exI[of _ mj]) simp
  with X zv residuals_example show ?thesis by blast
qed

end
